theory Spec2Isabelle
  imports Main "HOL-Library.AList"
begin

section \<open>Python values\<close>

text \<open>
  The allocation engine of \<^verbatim>\<open>edupath.py\<close> works on three parsed inputs: the roster (a
  pandas DataFrame read from a spreadsheet), the catalog (the JSON document of universities)
  and the override table (a dict, or \<^verbatim>\<open>None\<close>). Reading the files is outside the model: the
  functions below take the parsed values.

  A cell of the roster is the Python object found in the row: a string, an integer, or the
  float NaN that pandas puts in an empty spreadsheet cell. The only thing the code does with
  a cell is \<^verbatim>\<open>str(...)\<close>.
\<close>

datatype error = KeyError string

datatype cell = CStr string | CInt int | CNaN

definition digit_char :: "nat \<Rightarrow> char" where
  "digit_char d = ''0123456789'' ! d"

function str_nat :: "nat \<Rightarrow> string" where
  "str_nat n = (if n < 10 then [digit_char n] else str_nat (n div 10) @ [digit_char (n mod 10)])"
  by pat_completeness auto
termination
  by (relation "measure (\<lambda>n. n)") auto

declare str_nat.simps [simp del]

text \<open>\<^verbatim>\<open>str(i)\<close> and \<^verbatim>\<open>f"{i}"\<close> of a Python int: decimal digits, a minus sign first when negative.\<close>

definition str_int :: "int \<Rightarrow> string" where
  "str_int i = (if i < 0 then CHR ''-'' # str_nat (nat (- i)) else str_nat (nat i))"

fun py_str :: "cell \<Rightarrow> string" where
  "py_str (CStr s) = s"
| "py_str (CInt i) = str_int i"
| "py_str CNaN = ''nan''"

text \<open>\<^verbatim>\<open>d.get(k, default)\<close> on a dict held as an association list.\<close>

definition dict_get :: "('k \<times> 'v) list \<Rightarrow> 'k \<Rightarrow> 'v \<Rightarrow> 'v" where
  "dict_get d k dflt = (case map_of d k of None \<Rightarrow> dflt | Some v \<Rightarrow> v)"

section \<open>The roster\<close>

text \<open>
  A row handed out by \<^verbatim>\<open>df.iterrows()\<close> is a Series: labels (the column names, in column
  order) with their values. \<^verbatim>\<open>pd.read_excel\<close> renames repeated headers, so the labels of a
  row are distinct. \<^verbatim>\<open>row[sub]\<close> raises \<^verbatim>\<open>KeyError\<close> on a label the row does not have.
\<close>

type_synonym series = "(string \<times> cell) list"

record dataframe =
  columns :: "string list"
  rows :: "series list"

definition series_index :: "series \<Rightarrow> string list" where
  "series_index row = map fst row"

definition series_get :: "series \<Rightarrow> string \<Rightarrow> error + cell" where
  "series_get row k = (case map_of row k of None \<Rightarrow> Inl (KeyError k) | Some v \<Rightarrow> Inr v)"

text \<open>
  \<^verbatim>\<open>df[c] = v\<close>: an existing column \<open>c\<close> is overwritten where it stands, a new one is appended
  as the last column; every row gets the value \<open>v\<close>.
\<close>

definition set_column :: "string \<Rightarrow> cell \<Rightarrow> dataframe \<Rightarrow> dataframe" where
  "set_column c v df =
     \<lparr>columns = (if c \<in> set (columns df) then columns df else columns df @ [c]),
      rows = map (AList.update c v) (rows df)\<rparr>"

text \<open>\<^verbatim>\<open>df.at[idx, c] = v\<close> for a row position \<open>idx\<close> and an existing column \<open>c\<close>.\<close>

definition set_at :: "nat \<Rightarrow> string \<Rightarrow> cell \<Rightarrow> dataframe \<Rightarrow> dataframe" where
  "set_at idx c v df = df\<lparr>rows := (rows df)[idx := AList.update c v (rows df ! idx)]\<rparr>"

text \<open>\<^verbatim>\<open>df.iterrows()\<close>: the rows with their positions (the index of a freshly read sheet).\<close>

definition iterrows :: "dataframe \<Rightarrow> (nat \<times> series) list" where
  "iterrows df = zip [0..<length (rows df)] (rows df)"

section \<open>The catalog and the override table\<close>

text \<open>
  A course of the JSON catalog has the key \<^verbatim>\<open>"name"\<close> and may lack the key
  \<^verbatim>\<open>"min_score"\<close>; a university has the keys \<^verbatim>\<open>"name"\<close> and \<^verbatim>\<open>"courses"\<close>. An override
  (written by \<^verbatim>\<open>api.py\<close>) has the keys \<^verbatim>\<open>"university"\<close> and \<^verbatim>\<open>"course"\<close>.
\<close>

record course_entry =
  course_name :: string
  min_score :: "int option"

record university_entry =
  uni_name :: string
  courses :: "course_entry list"

record override_entry =
  university :: string
  course :: string

type_synonym overrides = "(string \<times> override_entry) list option"

section \<open>Score\<close>

definition GRADE_TO_SCORE :: "(string \<times> int) list" where
  "GRADE_TO_SCORE =
     [(''A'', 5), (''B'', 4), (''C'', 3), (''D'', 2), (''E'', 1), (''F'', 0)]"

text \<open>
  \<^verbatim>\<open>sum(GRADE_TO_SCORE.get(str(row[sub]), 0) for sub in row.index
        if sub not in ["Student ID", "Name"])\<close>
\<close>

fun sum_scores :: "series \<Rightarrow> string list \<Rightarrow> error + int" where
  "sum_scores row [] = Inr 0"
| "sum_scores row (sub # subs) =
     (if sub \<in> set [''Student ID'', ''Name''] then sum_scores row subs
      else case series_get row sub of
             Inl e \<Rightarrow> Inl e
           | Inr v \<Rightarrow>
               (case sum_scores row subs of
                  Inl e \<Rightarrow> Inl e
                | Inr s \<Rightarrow> Inr (dict_get GRADE_TO_SCORE (py_str v) 0 + s)))"

definition compute_total_score :: "series \<Rightarrow> error + int" where
  "compute_total_score row = sum_scores row (series_index row)"

section \<open>Best-fit allocation\<close>

type_synonym best = "string \<times> string \<times> string"

text \<open>\<^verbatim>\<open>course.get("min_score", 0)\<close>\<close>

definition get_min_score :: "course_entry \<Rightarrow> int" where
  "get_min_score c = (case min_score c of None \<Rightarrow> 0 | Some m \<Rightarrow> m)"

text \<open>\<^verbatim>\<open>f"Total score {total_score} meets minimum {min_score}"\<close>\<close>

definition reasoning_text :: "int \<Rightarrow> int \<Rightarrow> string" where
  "reasoning_text total_score ms =
     ''Total score '' @ str_int total_score @ '' meets minimum '' @ str_int ms"

text \<open>
  \<^verbatim>\<open>next((c["min_score"] for u in universities for c in u["courses"]
         if c["name"] == best_course), 0)\<close>:
  the first course of the whole catalog with that name; \<^verbatim>\<open>c["min_score"]\<close> raises
  \<^verbatim>\<open>KeyError\<close> when that course has no minimum score.
\<close>

fun next_min_score :: "course_entry list \<Rightarrow> string \<Rightarrow> error + int" where
  "next_min_score [] best_course = Inr 0"
| "next_min_score (c # cs) best_course =
     (if course_name c = best_course
      then (case min_score c of None \<Rightarrow> Inl (KeyError ''min_score'') | Some m \<Rightarrow> Inr m)
      else next_min_score cs best_course)"

definition all_courses :: "university_entry list \<Rightarrow> course_entry list" where
  "all_courses universities = concat (map courses universities)"

text \<open>The inner loop, over the courses of one university; the state is the running best.\<close>

fun course_loop ::
  "university_entry list \<Rightarrow> int \<Rightarrow> string \<Rightarrow> course_entry list \<Rightarrow> best \<Rightarrow> error + best" where
  "course_loop universities total_score uname [] b = Inr b"
| "course_loop universities total_score uname (c # rest) (best_uni, best_course, reasoning) =
     (if total_score \<ge> get_min_score c then
        (if best_course = [] then
           course_loop universities total_score uname rest
             (uname, course_name c, reasoning_text total_score (get_min_score c))
         else
           (case next_min_score (all_courses universities) best_course of
              Inl e \<Rightarrow> Inl e
            | Inr bm \<Rightarrow>
                if get_min_score c > bm then
                  course_loop universities total_score uname rest
                    (uname, course_name c, reasoning_text total_score (get_min_score c))
                else course_loop universities total_score uname rest
                       (best_uni, best_course, reasoning)))
      else course_loop universities total_score uname rest (best_uni, best_course, reasoning))"

text \<open>The outer loop, over the universities.\<close>

fun uni_loop ::
  "university_entry list \<Rightarrow> int \<Rightarrow> university_entry list \<Rightarrow> best \<Rightarrow> error + best" where
  "uni_loop universities total_score [] b = Inr b"
| "uni_loop universities total_score (uni # rest) b =
     (case course_loop universities total_score (uni_name uni) (courses uni) b of
        Inl e \<Rightarrow> Inl e
      | Inr b' \<Rightarrow> uni_loop universities total_score rest b')"

definition best_fit_allocation ::
  "series \<Rightarrow> university_entry list \<Rightarrow> int \<Rightarrow> error + best" where
  "best_fit_allocation student_row universities total_score =
     uni_loop universities total_score universities ('''', '''', ''No suitable course found'')"

section \<open>Allocation of a batch\<close>

text \<open>\<^verbatim>\<open>overrides and student_id in overrides\<close>: \<^verbatim>\<open>None\<close> and the empty dict are falsy.\<close>

fun override_for :: "overrides \<Rightarrow> string \<Rightarrow> override_entry option" where
  "override_for None student_id = None"
| "override_for (Some d) student_id = map_of d student_id"

text \<open>
  The body of the loop of \<^verbatim>\<open>allocate\<close> decides three values for the row and writes them
  with \<^verbatim>\<open>df.at\<close>. \<open>allocate_row\<close> is the decision (the AllocationResult of the student),
  \<open>write_result\<close> the three writes.
\<close>

definition allocate_row ::
  "university_entry list \<Rightarrow> overrides \<Rightarrow> series \<Rightarrow> error + best" where
  "allocate_row universities ovr row =
     (case series_get row ''Student ID'' of
        Inl e \<Rightarrow> Inl e
      | Inr sid \<Rightarrow>
          (case override_for ovr (py_str sid) of
             Some e \<Rightarrow> Inr (university e, course e, ''Manual override applied'')
           | None \<Rightarrow>
               (case compute_total_score row of
                  Inl e \<Rightarrow> Inl e
                | Inr total_score \<Rightarrow> best_fit_allocation row universities total_score)))"

definition write_result :: "nat \<Rightarrow> best \<Rightarrow> dataframe \<Rightarrow> dataframe" where
  "write_result idx b df =
     (case b of (uni, crs, reason) \<Rightarrow>
        set_at idx ''Reasoning'' (CStr reason)
          (set_at idx ''Allocated Course'' (CStr crs)
            (set_at idx ''Allocated University'' (CStr uni) df)))"

fun allocate_loop ::
  "university_entry list \<Rightarrow> overrides \<Rightarrow> (nat \<times> series) list \<Rightarrow> dataframe
     \<Rightarrow> error + dataframe" where
  "allocate_loop universities ovr [] df = Inr df"
| "allocate_loop universities ovr ((idx, row) # rest) df =
     (case allocate_row universities ovr row of
        Inl e \<Rightarrow> Inl e
      | Inr b \<Rightarrow> allocate_loop universities ovr rest (write_result idx b df))"

definition reset_columns :: "dataframe \<Rightarrow> dataframe" where
  "reset_columns df =
     set_column ''Reasoning'' (CStr '''')
       (set_column ''Allocated Course'' (CStr '''')
         (set_column ''Allocated University'' (CStr '''') df))"

definition allocate :: "dataframe \<Rightarrow> university_entry list \<Rightarrow> overrides \<Rightarrow> error + dataframe" where
  "allocate df universities ovr =
     allocate_loop universities ovr (iterrows (reset_columns df)) (reset_columns df)"

section \<open>The score as the specification words it\<close>

text \<open>
  The grade alphabet with its points (A=5, B=4, C=3, D=2, E=1, F=0; anything else counts 0),
  and the score of a record as the sum over its subject fields: every field except the
  identifier and the display name.
\<close>

definition grade_value :: "string \<Rightarrow> int" where
  "grade_value g =
     (if g = ''A'' then 5 else if g = ''B'' then 4 else if g = ''C'' then 3
      else if g = ''D'' then 2 else if g = ''E'' then 1 else if g = ''F'' then 0 else 0)"

definition subject_fields :: "series \<Rightarrow> series" where
  "subject_fields row = filter (\<lambda>(sub, v). sub \<noteq> ''Student ID'' \<and> sub \<noteq> ''Name'') row"

definition spec_score :: "series \<Rightarrow> int" where
  "spec_score row = sum_list (map (\<lambda>(sub, v). grade_value (py_str v)) (subject_fields row))"

definition field_points :: "string \<times> cell \<Rightarrow> int" where
  "field_points p =
     (if fst p \<noteq> ''Student ID'' \<and> fst p \<noteq> ''Name'' then grade_value (py_str (snd p)) else 0)"

section \<open>Results, rows and well-formed inputs\<close>



text \<open>
  The three cells that the loop writes into a row, the same three cells blanked (what
  \<^verbatim>\<open>df["Allocated University"] = ""\<close> and its two siblings do to every row), and the names
  of these columns.
\<close>

definition apply_result :: "best \<Rightarrow> series \<Rightarrow> series" where
  "apply_result b row =
     (case b of (uni, crs, reason) \<Rightarrow>
        AList.update ''Reasoning'' (CStr reason)
          (AList.update ''Allocated Course'' (CStr crs)
            (AList.update ''Allocated University'' (CStr uni) row)))"

definition reset_row :: "series \<Rightarrow> series" where
  "reset_row row = apply_result ('''', '''', '''') row"

definition output_columns :: "string list" where
  "output_columns = [''Allocated University'', ''Allocated Course'', ''Reasoning'']"

text \<open>
  The score of a student record as \<open>allocate\<close> takes it: the sum over the fields of the
  record other than the identifier, the display name and the three output columns.
\<close>

definition record_score :: "series \<Rightarrow> int" where
  "record_score row = spec_score (filter (\<lambda>p. fst p \<notin> set output_columns) row)"

text \<open>
  A catalog in which every course carries its minimum score, and a row that has the
  identifier column.
\<close>

definition catalog_complete :: "university_entry list \<Rightarrow> bool" where
  "catalog_complete universities = list_all (\<lambda>c. min_score c \<noteq> None) (all_courses universities)"

definition has_student_id :: "series \<Rightarrow> bool" where
  "has_student_id row = (''Student ID'' \<in> set (map fst row))"

section \<open>Selection in a single pass\<close>

text \<open>
  The selection as the specification words it: one pass over the courses in catalog order
  (university order, then course order), keeping a running best that is replaced only by a
  candidate of strictly larger minimum score. Courses are told apart by their position in
  the catalog, not by their name.
\<close>

definition catalog_entries :: "university_entry list \<Rightarrow> (string \<times> course_entry) list" where
  "catalog_entries universities =
     concat (map (\<lambda>u. map (\<lambda>c. (uni_name u, c)) (courses u)) universities)"

fun select_best ::
  "int \<Rightarrow> (string \<times> course_entry) list \<Rightarrow> (string \<times> course_entry) option
     \<Rightarrow> (string \<times> course_entry) option" where
  "select_best s [] best = best"
| "select_best s ((u, c) # es) best =
     (if get_min_score c \<le> s \<and>
         (case best of None \<Rightarrow> True | Some (bu, bc) \<Rightarrow> get_min_score bc < get_min_score c)
      then select_best s es (Some (u, c))
      else select_best s es best)"

fun render_best :: "int \<Rightarrow> (string \<times> course_entry) option \<Rightarrow> best" where
  "render_best s None = ('''', '''', ''No suitable course found'')"
| "render_best s (Some (u, c)) = (u, course_name c, reasoning_text s (get_min_score c))"

text \<open>
  Course names are pairwise distinct over the whole catalog, and none is empty.
\<close>

definition unique_course_names :: "university_entry list \<Rightarrow> bool" where
  "unique_course_names universities =
     (distinct (map course_name (all_courses universities)) \<and>
      [] \<notin> set (map course_name (all_courses universities)))"

section \<open>Example inputs\<close>

text \<open>
  The scenario of the specification: grades A and B (score 9) against CourseX (minimum 5)
  at UniA and CourseY (minimum 9) at UniB. \<open>scenario_row\<close> is the row as the loop sees
  it, with the three output cells blank.
\<close>

definition scenario_roster :: dataframe where
  "scenario_roster =
     \<lparr>columns = [''Student ID'', ''Name'', ''Math'', ''Eng''],
      rows = [[(''Student ID'', CStr ''S1''), (''Name'', CStr ''Ann''),
               (''Math'', CStr ''A''), (''Eng'', CStr ''B'')]]\<rparr>"

definition scenario_catalog :: "university_entry list" where
  "scenario_catalog =
     [\<lparr>uni_name = ''UniA'', courses = [\<lparr>course_name = ''CourseX'', min_score = Some 5\<rparr>]\<rparr>,
      \<lparr>uni_name = ''UniB'', courses = [\<lparr>course_name = ''CourseY'', min_score = Some 9\<rparr>]\<rparr>]"

definition scenario_row :: series where
  "scenario_row = [(''Student ID'', CStr ''S1''), (''Name'', CStr ''Ann''),
               (''Math'', CStr ''A''), (''Eng'', CStr ''B''),
               (''Allocated University'', CStr ''''), (''Allocated Course'', CStr ''''),
               (''Reasoning'', CStr '''')]"

text \<open>
  A student S42 with an override to UniC/CourseZ, and a batch of two students.
\<close>

definition override_row :: series where
  "override_row = [(''Student ID'', CStr ''S42''), (''Name'', CStr ''Bob''),
               (''Math'', CStr ''A''), (''Eng'', CStr ''B'')]"

definition override_table :: overrides where
  "override_table = Some [(''S42'', \<lparr>university = ''UniC'', course = ''CourseZ''\<rparr>)]"

definition batch_roster :: dataframe where
  "batch_roster =
     \<lparr>columns = [''Student ID'', ''Name'', ''Math'', ''Eng''],
      rows = [[(''Student ID'', CStr ''S1''), (''Name'', CStr ''Ann''),
               (''Math'', CStr ''A''), (''Eng'', CStr ''B'')],
              [(''Student ID'', CStr ''S42''), (''Name'', CStr ''Bob''),
               (''Math'', CStr ''C''), (''Eng'', CStr ''F'')]]\<rparr>"

definition batch_output :: dataframe where
  "batch_output =
     \<lparr>columns = [''Student ID'', ''Name'', ''Math'', ''Eng'',
                 ''Allocated University'', ''Allocated Course'', ''Reasoning''],
      rows = [[(''Student ID'', CStr ''S1''), (''Name'', CStr ''Ann''),
               (''Math'', CStr ''A''), (''Eng'', CStr ''B''),
               (''Allocated University'', CStr ''UniB''), (''Allocated Course'', CStr ''CourseY''),
               (''Reasoning'', CStr ''Total score 9 meets minimum 9'')],
              [(''Student ID'', CStr ''S42''), (''Name'', CStr ''Bob''),
               (''Math'', CStr ''C''), (''Eng'', CStr ''F''),
               (''Allocated University'', CStr ''UniC''), (''Allocated Course'', CStr ''CourseZ''),
               (''Reasoning'', CStr ''Manual override applied'')]]\<rparr>"

text \<open>
  A batch whose only student has an override.
\<close>

definition override_only_roster :: dataframe where
  "override_only_roster =
     \<lparr>columns = [''Student ID'', ''Name'', ''Math'', ''Eng''],
      rows = [[(''Student ID'', CStr ''S42''), (''Name'', CStr ''Bob''),
               (''Math'', CStr ''A''), (''Eng'', CStr ''B'')]]\<rparr>"

text \<open>
  A roster that already has a column named \<^verbatim>\<open>Reasoning\<close>.
\<close>

definition stale_roster :: dataframe where
  "stale_roster =
     \<lparr>columns = [''Student ID'', ''Name'', ''Reasoning'', ''Math''],
      rows = [[(''Student ID'', CStr ''S1''), (''Name'', CStr ''Ann''),
               (''Reasoning'', CStr ''A''), (''Math'', CStr ''B'')]]\<rparr>"

text \<open>
  A roster that already has a column named \<^verbatim>\<open>Allocated Course\<close> holding a grade, and a
  catalog whose only course accepts every score.
\<close>

definition graded_output_roster :: dataframe where
  "graded_output_roster =
     \<lparr>columns = [''Student ID'', ''Name'', ''Math'', ''Allocated Course''],
      rows = [[(''Student ID'', CStr ''S1''), (''Name'', CStr ''Ann''),
               (''Math'', CStr ''B''), (''Allocated Course'', CStr ''A'')]]\<rparr>"

definition basic_catalog :: "university_entry list" where
  "basic_catalog =
     [\<lparr>uni_name = ''UniA'', courses = [\<lparr>course_name = ''Basic'', min_score = Some 0\<rparr>]\<rparr>]"

text \<open>
  Catalogs with a course name used by two universities, and a catalog with a course that
  has no minimum score.
\<close>

definition duplicate_catalog :: "university_entry list" where
  "duplicate_catalog =
     [\<lparr>uni_name = ''UniA'', courses = [\<lparr>course_name = ''CS'', min_score = Some 10\<rparr>]\<rparr>,
      \<lparr>uni_name = ''UniB'', courses = [\<lparr>course_name = ''CS'', min_score = Some 3\<rparr>]\<rparr>,
      \<lparr>uni_name = ''UniC'', courses = [\<lparr>course_name = ''Math'', min_score = Some 5\<rparr>]\<rparr>]"

definition duplicate_roster :: dataframe where
  "duplicate_roster =
     \<lparr>columns = [''Student ID'', ''Name'', ''Math'', ''Eng''],
      rows = [[(''Student ID'', CStr ''S1''), (''Name'', CStr ''Ann''),
               (''Math'', CStr ''A''), (''Eng'', CStr ''E'')]]\<rparr>"

definition tie_catalog :: "university_entry list" where
  "tie_catalog =
     [\<lparr>uni_name = ''UniA'', courses = [\<lparr>course_name = ''CS'', min_score = Some 1\<rparr>]\<rparr>,
      \<lparr>uni_name = ''UniB'', courses = [\<lparr>course_name = ''CS'', min_score = Some 5\<rparr>]\<rparr>,
      \<lparr>uni_name = ''UniC'', courses = [\<lparr>course_name = ''Law'', min_score = Some 5\<rparr>]\<rparr>]"

definition tie_roster :: dataframe where
  "tie_roster =
     \<lparr>columns = [''Student ID'', ''Name'', ''Math''],
      rows = [[(''Student ID'', CStr ''S1''), (''Name'', CStr ''Ann''), (''Math'', CStr ''A'')]]\<rparr>"

definition open_catalog :: "university_entry list" where
  "open_catalog =
     [\<lparr>uni_name = ''UniA'',
       courses = [\<lparr>course_name = ''Foundation'', min_score = None\<rparr>,
                  \<lparr>course_name = ''CourseX'', min_score = Some 5\<rparr>]\<rparr>]"

section \<open>Score calculation\<close>

lemma grade_lookup: "dict_get GRADE_TO_SCORE g 0 = grade_value g"
  by (simp add: dict_get_def GRADE_TO_SCORE_def grade_value_def)

lemma grade_value_nonneg: "0 \<le> grade_value g"
  by (simp add: grade_value_def)

lemma spec_score_nonneg: "0 \<le> spec_score row"
  unfolding spec_score_def
  by (rule sum_list_nonneg) (auto simp: grade_value_nonneg)

lemma sum_scores_fields:
  assumes "distinct (map fst row)" and "set xs \<subseteq> set row"
  shows "sum_scores row (map fst xs) = Inr (spec_score xs)"
  using assms(2)
proof (induction xs)
  case Nil
  show ?case by (simp add: spec_score_def subject_fields_def)
next
  case (Cons x xs)
  obtain k v where x: "x = (k, v)" by (cases x)
  from Cons.prems x have "(k, v) \<in> set row" by simp
  with assms(1) have get: "series_get row k = Inr v"
    by (simp add: series_get_def)
  from Cons have ih: "sum_scores row (map fst xs) = Inr (spec_score xs)" by simp
  show ?case
    using get ih by (simp add: x spec_score_def subject_fields_def grade_lookup)
qed

text \<open>
  Line 48 on any row with distinct labels: the sum, over all fields of that row except
  \<^verbatim>\<open>Student ID\<close> and \<^verbatim>\<open>Name\<close>, of the grade points of the field's value, where a value
  that is no grade counts 0; no error is raised and the sum is never negative.
\<close>

lemma compute_total_score_fields:
  "distinct (map fst row) \<Longrightarrow>
     compute_total_score row = Inr (spec_score row) \<and> 0 \<le> spec_score row"
  by (simp add: compute_total_score_def series_index_def sum_scores_fields spec_score_nonneg)

lemma compute_total_score_fields_example:
  "distinct (map fst [(''Student ID'', CInt 42), (''Name'', CStr ''Ann''), (''Math'', CStr ''A''),
       (''Eng'', CStr ''B''), (''Art'', CStr ''a''), (''PE'', CNaN), (''Bio'', CInt 5)]) \<and>
   compute_total_score [(''Student ID'', CInt 42), (''Name'', CStr ''Ann''), (''Math'', CStr ''A''),
       (''Eng'', CStr ''B''), (''Art'', CStr ''a''), (''PE'', CNaN), (''Bio'', CInt 5)] = Inr 9"
  using compute_total_score_fields [of "[(''Student ID'', CInt 42), (''Name'', CStr ''Ann''), (''Math'', CStr ''A''),
       (''Eng'', CStr ''B''), (''Art'', CStr ''a''), (''PE'', CNaN), (''Bio'', CInt 5)]"]
  by (simp add: spec_score_def subject_fields_def grade_value_def str_int_def str_nat.simps digit_char_def)

text \<open>
  The score never raises, whatever the row holds.
\<close>

lemma series_get_present:
  "k \<in> fst ` set row \<Longrightarrow> \<exists>v. series_get row k = Inr v"
  by (cases "map_of row k") (auto simp: series_get_def map_of_eq_None_iff)

lemma sum_scores_total:
  "set subs \<subseteq> fst ` set row \<Longrightarrow> \<exists>s. sum_scores row subs = Inr s"
proof (induction subs)
  case Nil
  show ?case by simp
next
  case (Cons sub subs)
  then obtain s where s: "sum_scores row subs = Inr s" by auto
  from Cons.prems obtain v where "series_get row sub = Inr v"
    using series_get_present[of sub row] by auto
  with s show ?case by simp
qed

lemma compute_total_score_total: "\<exists>s. compute_total_score row = Inr s"
  unfolding compute_total_score_def series_index_def
  by (rule sum_scores_total) simp

section \<open>Best-fit allocation: no candidate, and the shape of a match\<close>

lemma course_loop_no_candidate:
  "\<forall>c \<in> set cs. s < get_min_score c \<Longrightarrow> course_loop cat s un cs b = Inr b"
  by (induction cat s un cs b rule: course_loop.induct) auto

lemma uni_loop_no_candidate:
  "\<forall>u \<in> set us. \<forall>c \<in> set (courses u). s < get_min_score c \<Longrightarrow> uni_loop cat s us b = Inr b"
  by (induction us arbitrary: b) (auto simp: course_loop_no_candidate)

lemma best_fit_no_candidate:
  "\<forall>u \<in> set cat. \<forall>c \<in> set (courses u). s < get_min_score c \<Longrightarrow>
     best_fit_allocation row cat s = Inr ('''', '''', ''No suitable course found'')"
  by (simp add: best_fit_allocation_def uni_loop_no_candidate)

text \<open>
  Claim C4. For a student without an override whose score is below the minimum score of
  every course of the catalog, the result is the empty university, the empty course and
  the reasoning \<^verbatim>\<open>No suitable course found\<close>, returned as a value and not as an error; so
  it is for every student without an override when the catalog is empty.
\<close>

theorem no_suitable_course:
  assumes "series_get row ''Student ID'' = Inr sid"
    and "override_for ovr (py_str sid) = None"
    and "compute_total_score row = Inr s"
  shows "((\<forall>u \<in> set cat. \<forall>c \<in> set (courses u). s < get_min_score c) \<longrightarrow>
            allocate_row cat ovr row = Inr ('''', '''', ''No suitable course found'')) \<and>
         allocate_row [] ovr row = Inr ('''', '''', ''No suitable course found'')"
  using assms by (simp add: allocate_row_def best_fit_no_candidate)

theorem no_suitable_course_witness:
  "series_get scenario_row ''Student ID'' = Inr (CStr ''S1'') \<and>
   override_for None (py_str (CStr ''S1'')) = None \<and>
   compute_total_score scenario_row = Inr 9 \<and>
   allocate_row [\<lparr>uni_name = ''UniA'', courses = [\<lparr>course_name = ''CourseX'', min_score = Some 10\<rparr>]\<rparr>]
      None scenario_row = Inr ('''', '''', ''No suitable course found'') \<and>
   allocate_row [] None scenario_row = Inr ('''', '''', ''No suitable course found'')"
proof -
  have h1: "series_get scenario_row ''Student ID'' = Inr (CStr ''S1'')"
    by (simp add: series_get_def scenario_row_def)
  have h2: "override_for None (py_str (CStr ''S1'')) = None" by simp
  have h3: "compute_total_score scenario_row = Inr 9"
    unfolding scenario_row_def by code_simp
  from no_suitable_course[OF h1 h2 h3,
      of "[\<lparr>uni_name = ''UniA'', courses = [\<lparr>course_name = ''CourseX'', min_score = Some 10\<rparr>]\<rparr>]"]
    h1 h2 h3
  show ?thesis by (simp add: get_min_score_def)
qed






section \<open>Overrides\<close>

text \<open>
  The body of the loop on a row whose identifier has an entry in the override table: the
  decision is the university and the course of the entry with the reasoning
  \<^verbatim>\<open>Manual override applied\<close>, for every catalog and whatever the other cells hold.
\<close>

lemma allocate_row_override:
  assumes "series_get row ''Student ID'' = Inr sid"
    and "override_for ovr (py_str sid) = Some e"
  shows "allocate_row cat ovr row = Inr (university e, course e, ''Manual override applied'')"
  using assms by (simp add: allocate_row_def)

lemma allocate_row_override_example:
  "series_get override_row ''Student ID'' = Inr (CStr ''S42'') \<and>
   override_for override_table (py_str (CStr ''S42''))
     = Some \<lparr>university = ''UniC'', course = ''CourseZ''\<rparr> \<and>
   allocate_row scenario_catalog override_table override_row
     = Inr (''UniC'', ''CourseZ'', ''Manual override applied'') \<and>
   allocate_row scenario_catalog None override_row
     = Inr (''UniB'', ''CourseY'', ''Total score 9 meets minimum 9'')"
proof -
  have h1: "series_get override_row ''Student ID'' = Inr (CStr ''S42'')"
    by (simp add: series_get_def override_row_def)
  have h2: "override_for override_table (py_str (CStr ''S42''))
     = Some \<lparr>university = ''UniC'', course = ''CourseZ''\<rparr>"
    by (simp add: override_table_def)
  have h3: "allocate_row scenario_catalog None override_row
     = Inr (''UniB'', ''CourseY'', ''Total score 9 meets minimum 9'')"
    unfolding scenario_catalog_def override_row_def by code_simp
  from allocate_row_override[OF h1 h2, of scenario_catalog] h1 h2 h3 show ?thesis by simp
qed

section \<open>The loop over the batch\<close>

lemma rows_reset_columns: "rows (reset_columns df) = map reset_row (rows df)"
  by (simp add: reset_columns_def set_column_def reset_row_def apply_result_def)

lemma write_result_rows:
  "idx < length (rows df) \<Longrightarrow>
     write_result idx b df = df\<lparr>rows := (rows df)[idx := apply_result b (rows df ! idx)]\<rparr>"
  by (cases b) (simp add: write_result_def set_at_def apply_result_def)

lemma allocate_loop_char:
  assumes "allocate_loop cat ovr its d = Inr out"
    and "distinct (map fst its)"
    and "\<forall>p \<in> set its. fst p < length (rows d)"
  shows "columns out = columns d \<and> length (rows out) = length (rows d) \<and>
         (\<forall>i < length (rows d). i \<notin> fst ` set its \<longrightarrow> rows out ! i = rows d ! i) \<and>
         (\<forall>p \<in> set its. \<exists>b. allocate_row cat ovr (snd p) = Inr b \<and>
              rows out ! fst p = apply_result b (rows d ! fst p))"
  using assms
proof (induction its arbitrary: d)
  case Nil
  then show ?case by simp
next
  case (Cons p its)
  obtain idx row where p: "p = (idx, row)" by (cases p)
  from Cons.prems(1) p obtain b where
    b: "allocate_row cat ovr row = Inr b" and
    rest: "allocate_loop cat ovr its (write_result idx b d) = Inr out"
    by (auto split: sum.splits)
  from Cons.prems(3) p have idx: "idx < length (rows d)" by simp
  let ?d = "write_result idx b d"
  have d': "?d = d\<lparr>rows := (rows d)[idx := apply_result b (rows d ! idx)]\<rparr>"
    by (rule write_result_rows[OF idx])
  have len: "length (rows ?d) = length (rows d)" and cols: "columns ?d = columns d"
    by (simp_all add: d')
  from Cons.prems(2) p have dist: "distinct (map fst its)" and notin: "idx \<notin> fst ` set its"
    by auto
  from Cons.prems(3) len have rng: "\<forall>q \<in> set its. fst q < length (rows ?d)" by simp
  note ih = Cons.IH[OF rest dist rng]
  have at_idx: "rows out ! idx = apply_result b (rows d ! idx)"
  proof -
    from ih idx len notin have "rows out ! idx = rows ?d ! idx" by simp
    also have "\<dots> = apply_result b (rows d ! idx)" using idx by (simp add: d')
    finally show ?thesis .
  qed
  have others: "rows ?d ! i = rows d ! i" if "i \<noteq> idx" for i
    using that by (simp add: d')
  show ?case
  proof (intro conjI allI impI ballI)
    show "columns out = columns d" using ih cols by simp
    show "length (rows out) = length (rows d)" using ih len by simp
  next
    fix i assume "i < length (rows d)" and ni: "i \<notin> fst ` set (p # its)"
    then have "i \<noteq> idx" and "i \<notin> fst ` set its" using p by auto
    with ih \<open>i < length (rows d)\<close> len others show "rows out ! i = rows d ! i" by simp
  next
    fix q assume q: "q \<in> set (p # its)"
    show "\<exists>b. allocate_row cat ovr (snd q) = Inr b \<and> rows out ! fst q = apply_result b (rows d ! fst q)"
    proof (cases "q = p")
      case True
      with b at_idx p show ?thesis by simp
    next
      case False
      with q have qin: "q \<in> set its" by simp
      with notin have "fst q \<noteq> idx" by force
      with ih qin others show ?thesis by force
    qed
  qed
qed

lemma iterrows_props:
  "distinct (map fst (iterrows d))"
  "\<forall>p \<in> set (iterrows d). fst p < length (rows d) \<and> snd p = rows d ! fst p"
  "i < length (rows d) \<Longrightarrow> (i, rows d ! i) \<in> set (iterrows d)"
proof -
  show "distinct (map fst (iterrows d))" by (simp add: iterrows_def)
  show "\<forall>p \<in> set (iterrows d). fst p < length (rows d) \<and> snd p = rows d ! fst p"
    by (auto simp: iterrows_def set_zip)
  assume "i < length (rows d)"
  then have "(i, rows d ! i) = zip [0..<length (rows d)] (rows d) ! i" by simp
  moreover from \<open>i < length (rows d)\<close> have "i < length (zip [0..<length (rows d)] (rows d))" by simp
  ultimately show "(i, rows d ! i) \<in> set (iterrows d)"
    unfolding iterrows_def by (metis nth_mem)
qed

lemma allocate_char:
  assumes "allocate df cat ovr = Inr out"
  shows "columns out = columns (reset_columns df)"
    and "length (rows out) = length (rows df)"
    and "i < length (rows df) \<Longrightarrow>
           \<exists>b. allocate_row cat ovr (reset_row (rows df ! i)) = Inr b \<and>
               rows out ! i = apply_result b (reset_row (rows df ! i))"
proof -
  let ?d = "reset_columns df"
  from assms have run: "allocate_loop cat ovr (iterrows ?d) ?d = Inr out"
    by (simp add: allocate_def)
  have rng: "\<forall>p \<in> set (iterrows ?d). fst p < length (rows ?d)"
    using iterrows_props(2) by blast
  note ch = allocate_loop_char[OF run iterrows_props(1) rng]
  show "columns out = columns ?d" using ch by simp
  show "length (rows out) = length (rows df)" using ch by (simp add: rows_reset_columns)
  assume i: "i < length (rows df)"
  then have "(i, rows ?d ! i) \<in> set (iterrows ?d)"
    by (intro iterrows_props(3)) (simp add: rows_reset_columns)
  with ch obtain b where "allocate_row cat ovr (rows ?d ! i) = Inr b"
    "rows out ! i = apply_result b (rows ?d ! i)" by force
  with i show "\<exists>b. allocate_row cat ovr (reset_row (rows df ! i)) = Inr b \<and>
               rows out ! i = apply_result b (reset_row (rows df ! i))"
    by (simp add: rows_reset_columns)
qed

subsection \<open>Updating the three cells\<close>

lemma update_commute_present:
  "k \<noteq> k' \<Longrightarrow> k \<in> fst ` set al \<Longrightarrow>
     AList.update k v (AList.update k' v' al) = AList.update k' v' (AList.update k v al)"
  by (induction al) auto

lemma apply_result_twice: "apply_result b (apply_result b' r) = apply_result b r"
proof -
  obtain u c t where b: "b = (u, c, t)" by (cases b)
  obtain u' c' t' where b': "b' = (u', c', t')" by (cases b')
  let ?U = "''Allocated University''" and ?C = "''Allocated Course''" and ?R = "''Reasoning''"
  let ?A = "AList.update ?U (CStr u') r"
  let ?B = "AList.update ?C (CStr c') ?A"
  have "AList.update ?U (CStr u) (AList.update ?R (CStr t') ?B)
        = AList.update ?R (CStr t') (AList.update ?U (CStr u) ?B)"
    by (rule update_commute_present) (simp_all add: dom_update)
  also have "AList.update ?U (CStr u) ?B = AList.update ?C (CStr c') (AList.update ?U (CStr u) ?A)"
    by (rule update_commute_present) (simp_all add: dom_update)
  also have "AList.update ?U (CStr u) ?A = AList.update ?U (CStr u) r" by simp
  finally have s1: "AList.update ?U (CStr u) (AList.update ?R (CStr t') ?B)
        = AList.update ?R (CStr t') (AList.update ?C (CStr c') (AList.update ?U (CStr u) r))" .
  let ?A1 = "AList.update ?U (CStr u) r"
  have "AList.update ?C (CStr c) (AList.update ?R (CStr t') (AList.update ?C (CStr c') ?A1))
        = AList.update ?R (CStr t') (AList.update ?C (CStr c) (AList.update ?C (CStr c') ?A1))"
    by (rule update_commute_present) (simp_all add: dom_update)
  also have "AList.update ?C (CStr c) (AList.update ?C (CStr c') ?A1) = AList.update ?C (CStr c) ?A1"
    by simp
  finally have s2: "AList.update ?C (CStr c) (AList.update ?R (CStr t') (AList.update ?C (CStr c') ?A1))
        = AList.update ?R (CStr t') (AList.update ?C (CStr c) ?A1)" .
  show ?thesis
    unfolding b b' apply_result_def prod.case s1 s2 by simp
qed

lemma reset_row_apply_result: "reset_row (apply_result b r) = reset_row r"
  by (simp add: reset_row_def apply_result_twice)

lemma filter_update_other:
  "k \<in> S \<Longrightarrow> filter (\<lambda>p. fst p \<notin> S) (AList.update k v al) = filter (\<lambda>p. fst p \<notin> S) al"
  by (induction al) auto

lemma output_columns_mem:
  "''Allocated University'' \<in> set output_columns"
  "''Allocated Course'' \<in> set output_columns"
  "''Reasoning'' \<in> set output_columns"
  by (simp_all add: output_columns_def)

lemma apply_result_frame:
  "filter (\<lambda>p. fst p \<notin> set output_columns) (apply_result b r)
     = filter (\<lambda>p. fst p \<notin> set output_columns) r"
  by (cases b) (simp add: apply_result_def filter_update_other output_columns_mem)

lemma apply_result_lookup:
  "c \<notin> set output_columns \<Longrightarrow> map_of (apply_result b r) c = map_of r c"
  by (cases b) (simp add: apply_result_def output_columns_def update_conv')

lemma take_keys_update: "take (length al) (map fst (AList.update k v al)) = map fst al"
  by (simp add: update_keys)

lemma length_update_ge: "length al \<le> length (AList.update k v al)"
  by (induction al) auto

lemma take_keys_update2:
  assumes "take (length al) (map fst bl) = map fst al" and "length al \<le> length bl"
  shows "take (length al) (map fst (AList.update k v bl)) = map fst al"
proof -
  have "take (length al) (take (length bl) (map fst (AList.update k v bl))) = map fst al"
    unfolding take_keys_update using assms(1) .
  with assms(2) show ?thesis by (simp add: min_def)
qed

lemma apply_result_keys:
  "take (length r) (map fst (apply_result b r)) = map fst r"
proof -
  obtain u c t where b: "b = (u, c, t)" by (cases b)
  let ?A = "AList.update ''Allocated University'' (CStr u) r"
  let ?B = "AList.update ''Allocated Course'' (CStr c) ?A"
  have a: "take (length r) (map fst ?A) = map fst r" by (rule take_keys_update)
  have la: "length r \<le> length ?A" by (rule length_update_ge)
  have bb: "take (length r) (map fst ?B) = map fst r" by (rule take_keys_update2[OF a la])
  have lb: "length r \<le> length ?B" using la length_update_ge[of ?A] by (meson order_trans)
  show ?thesis unfolding b apply_result_def prod.case by (rule take_keys_update2[OF bb lb])
qed

lemma set_column_columns:
  "take (length (columns df)) (columns (set_column c v df)) = columns df"
  "length (columns df) \<le> length (columns (set_column c v df))"
  "set (columns (set_column c v df)) = insert c (set (columns df))"
  "k \<in> S \<Longrightarrow> filter (\<lambda>x. x \<notin> S) (columns (set_column k v df)) = filter (\<lambda>x. x \<notin> S) (columns df)"
  by (auto simp: set_column_def)

lemma reset_columns_columns:
  "take (length (columns df)) (columns (reset_columns df)) = columns df"
  "set (columns (reset_columns df)) = set (columns df) \<union> set output_columns"
  "filter (\<lambda>x. x \<notin> set output_columns) (columns (reset_columns df))
     = filter (\<lambda>x. x \<notin> set output_columns) (columns df)"
proof -
  let ?a = "set_column ''Allocated University'' (CStr '''') df"
  let ?b = "set_column ''Allocated Course'' (CStr '''') ?a"
  let ?c = "set_column ''Reasoning'' (CStr '''') ?b"
  have eq: "reset_columns df = ?c" by (simp add: reset_columns_def)
  have l1: "length (columns df) \<le> length (columns ?a)" by (rule set_column_columns(2))
  have l2: "length (columns ?a) \<le> length (columns ?b)" by (rule set_column_columns(2))
  have t1: "take (length (columns df)) (columns ?a) = columns df" by (rule set_column_columns(1))
  have t2: "take (length (columns ?a)) (columns ?b) = columns ?a" by (rule set_column_columns(1))
  have t3: "take (length (columns ?b)) (columns ?c) = columns ?b" by (rule set_column_columns(1))
  have "take (length (columns df)) (columns ?b) = take (length (columns df)) (take (length (columns ?a)) (columns ?b))"
    using l1 by (simp add: min_def)
  with t1 t2 have t12: "take (length (columns df)) (columns ?b) = columns df" by simp
  have "take (length (columns df)) (columns ?c) = take (length (columns df)) (take (length (columns ?b)) (columns ?c))"
    using l1 l2 by (simp add: min_def)
  with t12 t3 show "take (length (columns df)) (columns (reset_columns df)) = columns df"
    unfolding eq by simp
  show "set (columns (reset_columns df)) = set (columns df) \<union> set output_columns"
    unfolding eq by (auto simp: set_column_columns(3) output_columns_def)
  show "filter (\<lambda>x. x \<notin> set output_columns) (columns (reset_columns df))
     = filter (\<lambda>x. x \<notin> set output_columns) (columns df)"
    unfolding eq by (simp add: set_column_columns(4) output_columns_mem)
qed

lemma series_get_apply_result:
  "c \<notin> set output_columns \<Longrightarrow> series_get (apply_result b r) c = series_get r c"
  by (simp add: series_get_def apply_result_lookup)

lemma has_student_id_apply_result: "has_student_id (apply_result b r) = has_student_id r"
  by (cases b) (auto simp: has_student_id_def apply_result_def dom_update)

subsection \<open>When the run returns a table\<close>

lemma next_min_score_total:
  "list_all (\<lambda>c. min_score c \<noteq> None) cs \<Longrightarrow> \<exists>m. next_min_score cs n = Inr m"
  by (induction cs) auto

lemma course_loop_total:
  "catalog_complete cat \<Longrightarrow> \<exists>b'. course_loop cat s un cs b = Inr b'"
proof (induction cat s un cs b rule: course_loop.induct)
  case (1 cat s un b)
  show ?case by (simp del: split_paired_Ex)
next
  case (2 cat s un c rest best_uni best_course reasoning)
  from "2.prems" obtain bm where bm: "next_min_score (all_courses cat) best_course = Inr bm"
    using next_min_score_total unfolding catalog_complete_def by blast
  show ?case
  proof (cases "get_min_score c \<le> s")
    case False
    with "2.IH"(4) "2.prems" show ?thesis by simp
  next
    case cand: True
    show ?thesis
    proof (cases "best_course = []")
      case True
      with cand "2.IH"(1) "2.prems" show ?thesis by simp
    next
      case ne: False
      show ?thesis
      proof (cases "bm < get_min_score c")
        case True
        with "2.IH"(2)[OF cand ne bm True "2.prems"] cand ne bm show ?thesis by simp
      next
        case False
        with "2.IH"(3)[OF cand ne bm False "2.prems"] cand ne bm show ?thesis by simp
      qed
    qed
  qed
qed

lemma uni_loop_total:
  "catalog_complete cat \<Longrightarrow> \<exists>b'. uni_loop cat s us b = Inr b'"
proof (induction us arbitrary: b)
  case Nil
  show ?case by (simp del: split_paired_Ex)
next
  case (Cons u us)
  from course_loop_total[OF Cons.prems] obtain b1 where
    "course_loop cat s (uni_name u) (courses u) b = Inr b1" by blast
  with Cons.IH[OF Cons.prems, of b1] show ?case by simp
qed

lemma allocate_row_total:
  assumes "has_student_id row" and "catalog_complete cat"
  shows "\<exists>b. allocate_row cat ovr row = Inr b"
proof -
  from assms(1) obtain sid where sid: "series_get row ''Student ID'' = Inr sid"
    using series_get_present[of "''Student ID''" row] by (auto simp: has_student_id_def)
  obtain s where s: "compute_total_score row = Inr s"
    using compute_total_score_total by blast
  obtain b where b: "best_fit_allocation row cat s = Inr b"
    using uni_loop_total[OF assms(2)] unfolding best_fit_allocation_def by blast
  show ?thesis
    using sid s b
    by (cases "override_for ovr (py_str sid)") (simp_all add: allocate_row_def del: split_paired_Ex)
qed

lemma allocate_loop_total:
  assumes "\<forall>p \<in> set its. has_student_id (snd p)" and "catalog_complete cat"
  shows "\<exists>out. allocate_loop cat ovr its d = Inr out"
  using assms(1)
proof (induction its arbitrary: d)
  case Nil
  show ?case by simp
next
  case (Cons p its)
  obtain idx row where p: "p = (idx, row)" by (cases p)
  with Cons.prems have "has_student_id row" by simp
  from allocate_row_total[OF this assms(2)] obtain b where
    "allocate_row cat ovr row = Inr b" by blast
  with Cons.IH[of "write_result idx b d"] Cons.prems p show ?case by simp
qed

lemma allocate_total:
  assumes "list_all has_student_id (rows df)" and "catalog_complete cat"
  shows "\<exists>out. allocate df cat ovr = Inr out"
  unfolding allocate_def
proof (rule allocate_loop_total[OF _ assms(2)])
  show "\<forall>p \<in> set (iterrows (reset_columns df)). has_student_id (snd p)"
  proof
    fix p assume "p \<in> set (iterrows (reset_columns df))"
    then have "snd p \<in> set (rows (reset_columns df))"
      unfolding iterrows_def by (metis in_set_zipE prod.collapse)
    then obtain r where "r \<in> set (rows df)" and "snd p = reset_row r"
      by (auto simp: rows_reset_columns)
    with assms(1) show "has_student_id (snd p)"
      by (simp add: list_all_iff reset_row_def has_student_id_apply_result)
  qed
qed

text \<open>
  When every row has the identifier column and every course of the catalog has its minimum
  score, \<open>allocate\<close> returns a table. Whenever it returns a table, the table has exactly
  one row per row of the batch, in the order of the batch: row \<open>i\<close> is row \<open>i\<close> of the
  batch with the result of that student written into the three output cells, and with the
  identifier and the name of that student.
\<close>

lemma allocate_result_per_row:
  "(list_all has_student_id (rows df) \<and> catalog_complete cat
      \<longrightarrow> (\<exists>out. allocate df cat ovr = Inr out)) \<and>
   (\<forall>out. allocate df cat ovr = Inr out \<longrightarrow>
      length (rows out) = length (rows df) \<and>
      (\<forall>i < length (rows df).
         \<exists>b. allocate_row cat ovr (reset_row (rows df ! i)) = Inr b \<and>
             rows out ! i = apply_result b (rows df ! i) \<and>
             series_get (rows out ! i) ''Student ID'' = series_get (rows df ! i) ''Student ID'' \<and>
             series_get (rows out ! i) ''Name'' = series_get (rows df ! i) ''Name''))"
proof (intro conjI impI allI)
  assume "list_all has_student_id (rows df) \<and> catalog_complete cat"
  then show "\<exists>out. allocate df cat ovr = Inr out" by (simp add: allocate_total)
next
  fix out assume run: "allocate df cat ovr = Inr out"
  show "length (rows out) = length (rows df)" by (rule allocate_char(2)[OF run])
next
  fix out i assume run: "allocate df cat ovr = Inr out" and i: "i < length (rows df)"
  from allocate_char(3)[OF run i] obtain b where
    b: "allocate_row cat ovr (reset_row (rows df ! i)) = Inr b" and
    r: "rows out ! i = apply_result b (reset_row (rows df ! i))" by blast
  have r': "rows out ! i = apply_result b (rows df ! i)"
    using r by (simp add: reset_row_def apply_result_twice)
  have "series_get (rows out ! i) ''Student ID'' = series_get (rows df ! i) ''Student ID''"
    "series_get (rows out ! i) ''Name'' = series_get (rows df ! i) ''Name''"
    unfolding r' by (rule series_get_apply_result, simp add: output_columns_def)+
  with b r' show "\<exists>b. allocate_row cat ovr (reset_row (rows df ! i)) = Inr b \<and>
             rows out ! i = apply_result b (rows df ! i) \<and>
             series_get (rows out ! i) ''Student ID'' = series_get (rows df ! i) ''Student ID'' \<and>
             series_get (rows out ! i) ''Name'' = series_get (rows df ! i) ''Name''"
    by blast
qed

lemma batch_run: "allocate batch_roster scenario_catalog override_table = Inr batch_output"
  unfolding batch_roster_def scenario_catalog_def override_table_def batch_output_def
  by code_simp

lemma allocate_result_per_row_example:
  "list_all has_student_id (rows batch_roster) \<and> catalog_complete scenario_catalog \<and>
   allocate batch_roster scenario_catalog override_table = Inr batch_output \<and>
   length (rows batch_output) = length (rows batch_roster) \<and>
   (\<exists>b. allocate_row scenario_catalog override_table (reset_row (rows batch_roster ! 1)) = Inr b \<and>
        rows batch_output ! 1 = apply_result b (rows batch_roster ! 1))"
proof -
  have h1: "list_all has_student_id (rows batch_roster)"
    by (simp add: batch_roster_def has_student_id_def)
  have h2: "catalog_complete scenario_catalog"
    by (simp add: catalog_complete_def scenario_catalog_def all_courses_def)
  have h3: "(1::nat) < length (rows batch_roster)" by (simp add: batch_roster_def)
  from allocate_result_per_row[of batch_roster scenario_catalog override_table]
    batch_run h3
  have "length (rows batch_output) = length (rows batch_roster) \<and>
   (\<exists>b. allocate_row scenario_catalog override_table (reset_row (rows batch_roster ! 1)) = Inr b \<and>
        rows batch_output ! 1 = apply_result b (rows batch_roster ! 1))"
    by blast
  with h1 h2 batch_run show ?thesis by blast
qed

section \<open>Overrides in the returned table\<close>

lemma allocate_loop_returns:
  assumes "\<forall>p \<in> set its. \<exists>b. allocate_row cat ovr (snd p) = Inr b"
  shows "\<exists>out. allocate_loop cat ovr its d = Inr out"
  using assms
proof (induction its arbitrary: d)
  case Nil
  show ?case by simp
next
  case (Cons p its)
  obtain idx row where p: "p = (idx, row)" by (cases p)
  with Cons.prems obtain b where "allocate_row cat ovr row = Inr b" by auto
  with Cons.IH[of "write_result idx b d"] Cons.prems p show ?case by simp
qed

lemma apply_result_cells:
  "series_get (apply_result (u, c, t) r) ''Allocated University'' = Inr (CStr u)"
  "series_get (apply_result (u, c, t) r) ''Allocated Course'' = Inr (CStr c)"
  "series_get (apply_result (u, c, t) r) ''Reasoning'' = Inr (CStr t)"
  by (simp_all add: series_get_def apply_result_def update_conv')

lemma series_get_reset_row:
  "c \<notin> set output_columns \<Longrightarrow> series_get (reset_row r) c = series_get r c"
  unfolding reset_row_def by (rule series_get_apply_result)

lemma student_id_not_output: "''Student ID'' \<notin> set output_columns"
  by (simp add: output_columns_def)

text \<open>
  Claim C3. In every table that \<open>allocate\<close> returns, the row of a student whose identifier
  has an entry in the override table is the row of the batch with the university and the
  course of the entry and the reasoning \<^verbatim>\<open>Manual override applied\<close> written into the three
  output cells, whatever the catalog and the grades of the student are. Scoring and the
  search of the catalog are skipped for such a student: a batch in which every student has
  an override is allocated on every catalog, also on one on which the search raises.
\<close>

theorem override_applied:
  "(\<forall>out i sid e.
      allocate df cat ovr = Inr out \<and> i < length (rows df) \<and>
      series_get (rows df ! i) ''Student ID'' = Inr sid \<and>
      override_for ovr (py_str sid) = Some e
      \<longrightarrow> rows out ! i
            = apply_result (university e, course e, ''Manual override applied'') (rows df ! i) \<and>
          series_get (rows out ! i) ''Allocated University'' = Inr (CStr (university e)) \<and>
          series_get (rows out ! i) ''Allocated Course'' = Inr (CStr (course e)) \<and>
          series_get (rows out ! i) ''Reasoning'' = Inr (CStr ''Manual override applied'')) \<and>
   ((\<forall>r \<in> set (rows df). \<exists>sid e. series_get r ''Student ID'' = Inr sid \<and>
                                  override_for ovr (py_str sid) = Some e)
      \<longrightarrow> (\<exists>out. allocate df cat ovr = Inr out))"
proof (intro conjI allI impI)
  fix out i sid e
  assume a: "allocate df cat ovr = Inr out \<and> i < length (rows df) \<and>
      series_get (rows df ! i) ''Student ID'' = Inr sid \<and>
      override_for ovr (py_str sid) = Some e"
  then have run: "allocate df cat ovr = Inr out" and i: "i < length (rows df)"
    and sid: "series_get (rows df ! i) ''Student ID'' = Inr sid"
    and e: "override_for ovr (py_str sid) = Some e" by simp_all
  from allocate_char(3)[OF run i] obtain b where
    b: "allocate_row cat ovr (reset_row (rows df ! i)) = Inr b" and
    r: "rows out ! i = apply_result b (reset_row (rows df ! i))" by blast
  have "series_get (reset_row (rows df ! i)) ''Student ID'' = Inr sid"
    using sid by (simp add: series_get_reset_row student_id_not_output)
  from allocate_row_override[OF this e, of cat] b
  have bv: "b = (university e, course e, ''Manual override applied'')" by simp
  show row: "rows out ! i
            = apply_result (university e, course e, ''Manual override applied'') (rows df ! i)"
    using r unfolding bv by (simp add: reset_row_def apply_result_twice)
  show "series_get (rows out ! i) ''Allocated University'' = Inr (CStr (university e))"
    unfolding row by (rule apply_result_cells)
  show "series_get (rows out ! i) ''Allocated Course'' = Inr (CStr (course e))"
    unfolding row by (rule apply_result_cells)
  show "series_get (rows out ! i) ''Reasoning'' = Inr (CStr ''Manual override applied'')"
    unfolding row by (rule apply_result_cells)
next
  assume all: "\<forall>r \<in> set (rows df). \<exists>sid e. series_get r ''Student ID'' = Inr sid \<and>
                                  override_for ovr (py_str sid) = Some e"
  show "\<exists>out. allocate df cat ovr = Inr out"
    unfolding allocate_def
  proof (rule allocate_loop_returns, rule ballI)
    fix p assume "p \<in> set (iterrows (reset_columns df))"
    then have "snd p \<in> set (rows (reset_columns df))"
      unfolding iterrows_def by (metis in_set_zipE prod.collapse)
    then obtain r where rin: "r \<in> set (rows df)" and p: "snd p = reset_row r"
      by (auto simp: rows_reset_columns)
    from all rin obtain sid e where sid: "series_get r ''Student ID'' = Inr sid"
      and e: "override_for ovr (py_str sid) = Some e" by blast
    from sid have "series_get (reset_row r) ''Student ID'' = Inr sid"
      by (simp add: series_get_reset_row student_id_not_output)
    from allocate_row_override[OF this e, of cat] p
    show "\<exists>b. allocate_row cat ovr (snd p) = Inr b" by (simp del: split_paired_Ex)
  qed
qed

theorem override_applied_witness:
  "allocate batch_roster scenario_catalog override_table = Inr batch_output \<and>
   (1::nat) < length (rows batch_roster) \<and>
   series_get (rows batch_roster ! 1) ''Student ID'' = Inr (CStr ''S42'') \<and>
   override_for override_table (py_str (CStr ''S42''))
     = Some \<lparr>university = ''UniC'', course = ''CourseZ''\<rparr> \<and>
   series_get (rows batch_output ! 1) ''Allocated University'' = Inr (CStr ''UniC'') \<and>
   series_get (rows batch_output ! 1) ''Allocated Course'' = Inr (CStr ''CourseZ'') \<and>
   series_get (rows batch_output ! 1) ''Reasoning'' = Inr (CStr ''Manual override applied'') \<and>
   (\<exists>out. allocate override_only_roster open_catalog override_table = Inr out \<and>
      series_get (rows out ! 0) ''Allocated Course'' = Inr (CStr ''CourseZ'')) \<and>
   allocate override_only_roster open_catalog None = Inl (KeyError ''min_score'')"
proof -
  have i: "(1::nat) < length (rows batch_roster)" by (simp add: batch_roster_def)
  have sid: "series_get (rows batch_roster ! 1) ''Student ID'' = Inr (CStr ''S42'')"
    by (simp add: batch_roster_def series_get_def)
  have e: "override_for override_table (py_str (CStr ''S42''))
     = Some \<lparr>university = ''UniC'', course = ''CourseZ''\<rparr>"
    by (simp add: override_table_def)
  from override_applied[of batch_roster scenario_catalog override_table] batch_run i sid e
  have cells: "series_get (rows batch_output ! 1) ''Allocated University'' = Inr (CStr ''UniC'') \<and>
   series_get (rows batch_output ! 1) ''Allocated Course'' = Inr (CStr ''CourseZ'') \<and>
   series_get (rows batch_output ! 1) ''Reasoning'' = Inr (CStr ''Manual override applied'')"
    by fastforce
  have i0: "(0::nat) < length (rows override_only_roster)" by (simp add: override_only_roster_def)
  have sid0: "series_get (rows override_only_roster ! 0) ''Student ID'' = Inr (CStr ''S42'')"
    by (simp add: override_only_roster_def series_get_def)
  have all: "\<forall>r \<in> set (rows override_only_roster). \<exists>sid e.
      series_get r ''Student ID'' = Inr sid \<and> override_for override_table (py_str sid) = Some e"
    by (simp add: override_only_roster_def series_get_def override_table_def)
  note t = override_applied[of override_only_roster open_catalog override_table]
  from t all obtain out where
    out: "allocate override_only_roster open_catalog override_table = Inr out" by blast
  with t i0 sid0 e
  have "series_get (rows out ! 0) ''Allocated Course'' = Inr (CStr ''CourseZ'')" by fastforce
  with out have ex: "\<exists>out. allocate override_only_roster open_catalog override_table = Inr out \<and>
      series_get (rows out ! 0) ''Allocated Course'' = Inr (CStr ''CourseZ'')" by blast
  have raise: "allocate override_only_roster open_catalog None = Inl (KeyError ''min_score'')"
    unfolding override_only_roster_def open_catalog_def by code_simp
  from batch_run i sid e cells ex raise show ?thesis by blast
qed

section \<open>Re-running\<close>

lemma set_column_present: "c \<in> set (columns d) \<Longrightarrow> columns (set_column c v d) = columns d"
  by (simp add: set_column_def)

lemma reset_columns_again:
  assumes "columns d = columns (reset_columns df)"
  shows "columns (reset_columns d) = columns d"
proof -
  have "set output_columns \<subseteq> set (columns d)"
    unfolding assms reset_columns_columns(2) by simp
  then show ?thesis
    by (simp add: reset_columns_def output_columns_def set_column_present set_column_columns(3))
qed

lemma reset_columns_output:
  assumes "allocate df cat ovr = Inr out"
  shows "reset_columns out = reset_columns df"
proof (rule dataframe.equality)
  show "columns (reset_columns out) = columns (reset_columns df)"
    using reset_columns_again[OF allocate_char(1)[OF assms]] allocate_char(1)[OF assms] by simp
  show "rows (reset_columns out) = rows (reset_columns df)"
    unfolding rows_reset_columns
  proof (rule nth_equalityI)
    show "length (map reset_row (rows out)) = length (map reset_row (rows df))"
      using allocate_char(2)[OF assms] by simp
    fix i assume "i < length (map reset_row (rows out))"
    then have i: "i < length (rows df)" using allocate_char(2)[OF assms] by simp
    from allocate_char(3)[OF assms i] obtain b where
      "rows out ! i = apply_result b (reset_row (rows df ! i))" by blast
    then have "reset_row (rows out ! i) = reset_row (rows df ! i)"
      by (simp add: reset_row_apply_result reset_row_def apply_result_twice)
    with i allocate_char(2)[OF assms]
    show "map reset_row (rows out) ! i = map reset_row (rows df) ! i" by simp
  qed
  show "dataframe.more (reset_columns out) = dataframe.more (reset_columns df)" by simp
qed

text \<open>
  Nothing left behind in the output columns by an earlier run enters the outcome of
  \<open>allocate\<close> (the table, or the error): every roster that agrees with \<open>df\<close> once the three
  output columns are blanked gives the same outcome, and a returned table that is fed back
  as the roster is returned again.
\<close>

lemma allocate_rerun:
  "(\<forall>df'. reset_columns df' = reset_columns df \<longrightarrow> allocate df' cat ovr = allocate df cat ovr) \<and>
   (\<forall>out. allocate df cat ovr = Inr out \<longrightarrow> allocate out cat ovr = Inr out)"
proof (intro conjI allI impI)
  fix df' assume "reset_columns df' = reset_columns df"
  then show "allocate df' cat ovr = allocate df cat ovr" by (simp add: allocate_def)
next
  fix out assume run: "allocate df cat ovr = Inr out"
  from reset_columns_output[OF run] run
  show "allocate out cat ovr = Inr out" by (simp add: allocate_def)
qed

lemma allocate_rerun_example:
  "reset_columns batch_output = reset_columns batch_roster \<and>
   allocate batch_roster scenario_catalog override_table = Inr batch_output \<and>
   allocate batch_output scenario_catalog override_table
     = allocate batch_roster scenario_catalog override_table \<and>
   allocate batch_output scenario_catalog override_table = Inr batch_output"
proof -
  have r: "reset_columns batch_output = reset_columns batch_roster"
    unfolding batch_roster_def batch_output_def by code_simp
  from allocate_rerun[of batch_roster scenario_catalog override_table] r batch_run
  show ?thesis by simp
qed

section \<open>Frame\<close>

text \<open>
  Claim C10, as amended. The returned table has the rows of the batch in their order and
  the columns of the batch in their places, followed by those of \<^verbatim>\<open>Allocated University\<close>,
  \<^verbatim>\<open>Allocated Course\<close> and \<^verbatim>\<open>Reasoning\<close> that the batch did not have. In every row, every
  cell of a column other than these three is unchanged (value and position); these three
  are the only cells written.
\<close>

theorem allocate_frame:
  assumes "allocate df cat ovr = Inr out"
  shows "length (rows out) = length (rows df) \<and>
         take (length (columns df)) (columns out) = columns df \<and>
         set (columns out) = set (columns df) \<union> set output_columns \<and>
         (\<forall>i < length (rows df).
            take (length (rows df ! i)) (map fst (rows out ! i)) = map fst (rows df ! i) \<and>
            filter (\<lambda>p. fst p \<notin> set output_columns) (rows out ! i)
              = filter (\<lambda>p. fst p \<notin> set output_columns) (rows df ! i) \<and>
            (\<forall>c. c \<notin> set output_columns \<longrightarrow> map_of (rows out ! i) c = map_of (rows df ! i) c))"
proof (intro conjI allI impI)
  show "length (rows out) = length (rows df)" by (rule allocate_char(2)[OF assms])
  show "take (length (columns df)) (columns out) = columns df"
    unfolding allocate_char(1)[OF assms] by (rule reset_columns_columns(1))
  show "set (columns out) = set (columns df) \<union> set output_columns"
    unfolding allocate_char(1)[OF assms] by (rule reset_columns_columns(2))
next
  fix i assume i: "i < length (rows df)"
  from allocate_char(3)[OF assms i] obtain b where
    "rows out ! i = apply_result b (reset_row (rows df ! i))" by blast
  then have r: "rows out ! i = apply_result b (rows df ! i)"
    by (simp add: reset_row_def apply_result_twice)
  show "take (length (rows df ! i)) (map fst (rows out ! i)) = map fst (rows df ! i)"
    unfolding r by (rule apply_result_keys)
  show "filter (\<lambda>p. fst p \<notin> set output_columns) (rows out ! i)
              = filter (\<lambda>p. fst p \<notin> set output_columns) (rows df ! i)"
    unfolding r by (rule apply_result_frame)
  fix c assume "c \<notin> set output_columns"
  then show "map_of (rows out ! i) c = map_of (rows df ! i) c"
    unfolding r by (rule apply_result_lookup)
qed

theorem allocate_frame_witness:
  "allocate batch_roster scenario_catalog override_table = Inr batch_output \<and>
   (1::nat) < length (rows batch_roster) \<and> ''Math'' \<notin> set output_columns \<and>
   length (rows batch_output) = length (rows batch_roster) \<and>
   take (length (columns batch_roster)) (columns batch_output) = columns batch_roster \<and>
   map_of (rows batch_output ! 1) ''Math'' = map_of (rows batch_roster ! 1) ''Math''"
proof -
  have h: "allocate batch_roster scenario_catalog override_table = Inr batch_output"
    unfolding batch_roster_def scenario_catalog_def override_table_def batch_output_def
    by code_simp
  have i: "(1::nat) < length (rows batch_roster)" by (simp add: batch_roster_def)
  have c: "''Math'' \<notin> set output_columns" by (simp add: output_columns_def)
  from allocate_frame[OF h] i c
  have "length (rows batch_output) = length (rows batch_roster) \<and>
   take (length (columns batch_roster)) (columns batch_output) = columns batch_roster \<and>
   map_of (rows batch_output ! 1) ''Math'' = map_of (rows batch_roster ! 1) ''Math''"
    by blast
  with h i c show ?thesis by blast
qed

text \<open>
  Claim C10, as stated, fails on a roster that already has a column named
  \<^verbatim>\<open>Reasoning\<close>: the column of the input is overwritten (here the cell \<^verbatim>\<open>A\<close> becomes
  \<^verbatim>\<open>No suitable course found\<close>), and it is blanked before the score is taken.
\<close>

theorem input_column_overwritten:
  "allocate stale_roster scenario_catalog None =
     Inr \<lparr>columns = [''Student ID'', ''Name'', ''Reasoning'', ''Math'',
                     ''Allocated University'', ''Allocated Course''],
          rows = [[(''Student ID'', CStr ''S1''), (''Name'', CStr ''Ann''),
                   (''Reasoning'', CStr ''No suitable course found''), (''Math'', CStr ''B''),
                   (''Allocated University'', CStr ''''), (''Allocated Course'', CStr '''')]]\<rparr> \<and>
   ''Reasoning'' \<in> set (columns stale_roster) \<and>
   map_of (rows stale_roster ! 0) ''Reasoning'' = Some (CStr ''A'')"
  unfolding stale_roster_def scenario_catalog_def by code_simp

text \<open>
  The score taken inside \<open>allocate\<close> is the score of the row with the three output cells
  blank, that is, the sum over the fields of the input row other than the identifier, the
  name and the three output columns.
\<close>

lemma spec_score_field_points: "spec_score row = sum_list (map field_points row)"
  by (induction row) (auto simp: spec_score_def subject_fields_def field_points_def)

lemma sum_list_split_filter:
  "sum_list (map f xs) = sum_list (map f (filter P xs)) + sum_list (map f (filter (\<lambda>x. \<not> P x) xs))"
  for f :: "'a \<Rightarrow> int"
  by (induction xs) auto

lemma sum_list_all_zero: "\<forall>x \<in> set xs. f x = 0 \<Longrightarrow> sum_list (map f xs) = 0"
  for f :: "'a \<Rightarrow> int"
  by (induction xs) auto

lemma distinct_apply_result:
  "distinct (map fst row) \<Longrightarrow> distinct (map fst (apply_result b row))"
  by (cases b) (simp add: apply_result_def distinct_update)

lemma reset_row_blank:
  assumes "distinct (map fst row)" and "p \<in> set (reset_row row)" and "fst p \<in> set output_columns"
  shows "snd p = CStr ''''"
proof -
  have d: "distinct (map fst (reset_row row))"
    unfolding reset_row_def by (rule distinct_apply_result[OF assms(1)])
  from assms(3) have "map_of (reset_row row) (fst p) = Some (CStr '''')"
    by (auto simp: reset_row_def apply_result_def output_columns_def update_conv')
  moreover from d assms(2) have "map_of (reset_row row) (fst p) = Some (snd p)" by simp
  ultimately show ?thesis by simp
qed

lemma allocate_score_ignores_output_columns:
  assumes "distinct (map fst row)"
  shows "compute_total_score (reset_row row)
           = Inr (spec_score (filter (\<lambda>p. fst p \<notin> set output_columns) row))"
proof -
  let ?r = "reset_row row"
  have d: "distinct (map fst ?r)"
    unfolding reset_row_def by (rule distinct_apply_result[OF assms])
  have zero: "sum_list (map field_points (filter (\<lambda>p. \<not> fst p \<notin> set output_columns) ?r)) = 0"
  proof (rule sum_list_all_zero, rule ballI)
    fix p assume "p \<in> set (filter (\<lambda>p. \<not> fst p \<notin> set output_columns) ?r)"
    then have "p \<in> set ?r" and "fst p \<in> set output_columns" by auto
    from reset_row_blank[OF assms this] show "field_points p = 0"
      by (simp add: field_points_def grade_value_def)
  qed
  have keep: "filter (\<lambda>p. fst p \<notin> set output_columns) ?r
                = filter (\<lambda>p. fst p \<notin> set output_columns) row"
    unfolding reset_row_def by (rule apply_result_frame)
  have "spec_score ?r = sum_list (map field_points ?r)" by (rule spec_score_field_points)
  also have "\<dots> = sum_list (map field_points (filter (\<lambda>p. fst p \<notin> set output_columns) ?r))
                    + sum_list (map field_points (filter (\<lambda>p. \<not> fst p \<notin> set output_columns) ?r))"
    by (rule sum_list_split_filter)
  also have "\<dots> = spec_score (filter (\<lambda>p. fst p \<notin> set output_columns) row)"
    unfolding zero keep by (simp add: spec_score_field_points)
  finally have "spec_score ?r = spec_score (filter (\<lambda>p. fst p \<notin> set output_columns) row)" .
  with sum_scores_fields[OF d subset_refl] show ?thesis
    by (simp add: compute_total_score_def series_index_def)
qed

lemma record_score_nonneg: "0 \<le> record_score row"
  unfolding record_score_def by (rule spec_score_nonneg)

text \<open>
  Claim C5, as amended. For every student record (a row with distinct labels), the score
  that \<open>allocate\<close> computes is the sum, over all fields except \<^verbatim>\<open>Student ID\<close>,
  \<^verbatim>\<open>Name\<close> and the three output columns, of the grade points of the field's value, where
  a value that is no grade counts 0; no error is raised and the score is never negative. In
  every returned table the row of a student without an override carries the best fit for
  this score.
\<close>

theorem record_score_computed:
  "(distinct (map fst row) \<longrightarrow>
      compute_total_score (reset_row row) = Inr (record_score row) \<and> 0 \<le> record_score row) \<and>
   (\<forall>df cat ovr out i sid.
      allocate df cat ovr = Inr out \<and> i < length (rows df) \<and> rows df ! i = row \<and>
      distinct (map fst row) \<and> series_get row ''Student ID'' = Inr sid \<and>
      override_for ovr (py_str sid) = None
      \<longrightarrow> (\<exists>b. best_fit_allocation (reset_row row) cat (record_score row) = Inr b \<and>
               rows out ! i = apply_result b row))"
proof (intro conjI allI impI)
  assume "distinct (map fst row)"
  then show "compute_total_score (reset_row row) = Inr (record_score row)"
    unfolding record_score_def by (rule allocate_score_ignores_output_columns)
  show "0 \<le> record_score row" by (rule record_score_nonneg)
next
  fix df cat ovr out i sid
  assume a: "allocate df cat ovr = Inr out \<and> i < length (rows df) \<and> rows df ! i = row \<and>
      distinct (map fst row) \<and> series_get row ''Student ID'' = Inr sid \<and>
      override_for ovr (py_str sid) = None"
  then have run: "allocate df cat ovr = Inr out" and i: "i < length (rows df)"
    and row: "rows df ! i = row" and d: "distinct (map fst row)"
    and sid: "series_get row ''Student ID'' = Inr sid"
    and none: "override_for ovr (py_str sid) = None" by simp_all
  from allocate_char(3)[OF run i] row obtain b where
    b: "allocate_row cat ovr (reset_row row) = Inr b" and
    r: "rows out ! i = apply_result b (reset_row row)" by auto
  have sid': "series_get (reset_row row) ''Student ID'' = Inr sid"
    using sid by (simp add: series_get_reset_row student_id_not_output)
  have sc: "compute_total_score (reset_row row) = Inr (record_score row)"
    unfolding record_score_def by (rule allocate_score_ignores_output_columns[OF d])
  from b sid' none sc
  have "best_fit_allocation (reset_row row) cat (record_score row) = Inr b"
    by (simp add: allocate_row_def)
  moreover from r have "rows out ! i = apply_result b row"
    by (simp add: reset_row_def apply_result_twice)
  ultimately show "\<exists>b. best_fit_allocation (reset_row row) cat (record_score row) = Inr b \<and>
               rows out ! i = apply_result b row" by blast
qed

theorem record_score_computed_witness:
  "distinct (map fst (rows graded_output_roster ! 0)) \<and>
   record_score (rows graded_output_roster ! 0) = 4 \<and>
   compute_total_score (reset_row (rows graded_output_roster ! 0)) = Inr 4 \<and>
   (0::nat) < length (rows graded_output_roster) \<and>
   series_get (rows graded_output_roster ! 0) ''Student ID'' = Inr (CStr ''S1'') \<and>
   override_for None (py_str (CStr ''S1'')) = None \<and>
   (\<exists>out b. allocate graded_output_roster basic_catalog None = Inr out \<and>
      best_fit_allocation (reset_row (rows graded_output_roster ! 0)) basic_catalog 4 = Inr b \<and>
      rows out ! 0 = apply_result b (rows graded_output_roster ! 0))"
proof -
  let ?row = "rows graded_output_roster ! 0"
  have d: "distinct (map fst ?row)" by (simp add: graded_output_roster_def)
  have rs: "record_score ?row = 4"
    by (simp add: graded_output_roster_def record_score_def output_columns_def spec_score_def
        subject_fields_def grade_value_def)
  have i: "(0::nat) < length (rows graded_output_roster)" by (simp add: graded_output_roster_def)
  have sid: "series_get ?row ''Student ID'' = Inr (CStr ''S1'')"
    by (simp add: graded_output_roster_def series_get_def)
  have none: "override_for None (py_str (CStr ''S1'')) = None" by simp
  have "\<exists>out. allocate graded_output_roster basic_catalog None = Inr out"
    by (rule allocate_total)
       (simp_all add: graded_output_roster_def has_student_id_def basic_catalog_def
          catalog_complete_def all_courses_def)
  then obtain out where out: "allocate graded_output_roster basic_catalog None = Inr out" ..
  note t = record_score_computed[of ?row]
  from t d rs have sc: "compute_total_score (reset_row ?row) = Inr 4" by simp
  from t out i d sid none
  have "\<exists>b. best_fit_allocation (reset_row ?row) basic_catalog (record_score ?row) = Inr b \<and>
               rows out ! 0 = apply_result b ?row" by blast
  with rs out have "\<exists>out b. allocate graded_output_roster basic_catalog None = Inr out \<and>
      best_fit_allocation (reset_row ?row) basic_catalog 4 = Inr b \<and>
      rows out ! 0 = apply_result b ?row" by auto
  with d rs sc i sid none show ?thesis by blast
qed

text \<open>
  Claim C5, as stated, fails on a record that has a field named like an output column: the
  record below has the grades B and A in its two fields other than identifier and name
  (sum 9), and the code scores 4, since the column \<^verbatim>\<open>Allocated Course\<close> is blanked before
  the score is taken.
\<close>

theorem output_named_column_not_scored:
  "spec_score (rows graded_output_roster ! 0) = 9 \<and>
   compute_total_score (reset_row (rows graded_output_roster ! 0)) = Inr 4 \<and>
   allocate graded_output_roster basic_catalog None =
     Inr \<lparr>columns = [''Student ID'', ''Name'', ''Math'', ''Allocated Course'',
                     ''Allocated University'', ''Reasoning''],
          rows = [[(''Student ID'', CStr ''S1''), (''Name'', CStr ''Ann''),
                   (''Math'', CStr ''B''), (''Allocated Course'', CStr ''Basic''),
                   (''Allocated University'', CStr ''UniA''),
                   (''Reasoning'', CStr ''Total score 4 meets minimum 0'')]]\<rparr>"
proof (intro conjI)
  show "spec_score (rows graded_output_roster ! 0) = 9"
    by (simp add: graded_output_roster_def spec_score_def subject_fields_def grade_value_def)
  show "compute_total_score (reset_row (rows graded_output_roster ! 0)) = Inr 4"
    unfolding graded_output_roster_def reset_row_def apply_result_def by code_simp
  show "allocate graded_output_roster basic_catalog None =
     Inr \<lparr>columns = [''Student ID'', ''Name'', ''Math'', ''Allocated Course'',
                     ''Allocated University'', ''Reasoning''],
          rows = [[(''Student ID'', CStr ''S1''), (''Name'', CStr ''Ann''),
                   (''Math'', CStr ''B''), (''Allocated Course'', CStr ''Basic''),
                   (''Allocated University'', CStr ''UniA''),
                   (''Reasoning'', CStr ''Total score 4 meets minimum 0'')]]\<rparr>"
    unfolding graded_output_roster_def basic_catalog_def by code_simp
qed

section \<open>Selection of the best course\<close>

text \<open>
  Claim C1. The docstring of \<^verbatim>\<open>best_fit_allocation\<close> promises the highest-tier course the
  student qualifies for. The running maximum is looked up by course name alone, so with a
  name shared by two universities the code misses it: the student below has score 6, UniC
  offers Math with minimum 5, and the code allocates UniB/CS with minimum 3.
\<close>

theorem duplicate_name_not_maximal:
  "compute_total_score (reset_row (rows duplicate_roster ! 0)) = Inr 6 \<and>
   allocate duplicate_roster duplicate_catalog None =
     Inr \<lparr>columns = [''Student ID'', ''Name'', ''Math'', ''Eng'',
                     ''Allocated University'', ''Allocated Course'', ''Reasoning''],
          rows = [[(''Student ID'', CStr ''S1''), (''Name'', CStr ''Ann''),
                   (''Math'', CStr ''A''), (''Eng'', CStr ''E''),
                   (''Allocated University'', CStr ''UniB''), (''Allocated Course'', CStr ''CS''),
                   (''Reasoning'', CStr ''Total score 6 meets minimum 3'')]]\<rparr> \<and>
   courses (duplicate_catalog ! 2) = [\<lparr>course_name = ''Math'', min_score = Some 5\<rparr>]"
  unfolding duplicate_roster_def duplicate_catalog_def reset_row_def apply_result_def
  by code_simp

text \<open>
  Claim C2. With a course name shared by two universities the code does not pick the first
  course of maximal qualifying minimum: UniB/CS and UniC/Law both have minimum 5, the
  student has score 5, UniB/CS comes first in the catalog, and the code allocates UniC/Law.
\<close>

theorem tie_not_first:
  "compute_total_score (reset_row (rows tie_roster ! 0)) = Inr 5 \<and>
   allocate tie_roster tie_catalog None =
     Inr \<lparr>columns = [''Student ID'', ''Name'', ''Math'',
                     ''Allocated University'', ''Allocated Course'', ''Reasoning''],
          rows = [[(''Student ID'', CStr ''S1''), (''Name'', CStr ''Ann''), (''Math'', CStr ''A''),
                   (''Allocated University'', CStr ''UniC''), (''Allocated Course'', CStr ''Law''),
                   (''Reasoning'', CStr ''Total score 5 meets minimum 5'')]]\<rparr> \<and>
   tie_catalog ! 1 = \<lparr>uni_name = ''UniB'', courses = [\<lparr>course_name = ''CS'', min_score = Some 5\<rparr>]\<rparr>"
  unfolding tie_roster_def tie_catalog_def reset_row_def apply_result_def
  by code_simp

text \<open>
  Claim C7. A course without a minimum score passes the candidate test with minimum 0, but
  once it is the running best the look-up of its minimum raises \<^verbatim>\<open>KeyError\<close> at the next
  candidate: no student is allocated.
\<close>

theorem missing_min_score_raises:
  "get_min_score \<lparr>course_name = ''Foundation'', min_score = None\<rparr> = 0 \<and>
   allocate scenario_roster open_catalog None = Inl (KeyError ''min_score'')"
  unfolding scenario_roster_def open_catalog_def
  by code_simp

text \<open>
  Claim C8. On the batch of two students and the catalog whose first course has no minimum
  score, every row has its identifier and \<open>allocate\<close> raises \<^verbatim>\<open>KeyError\<close>: no student
  of the batch gets a result.
\<close>

theorem batch_without_results:
  "list_all has_student_id (rows batch_roster) \<and>
   allocate batch_roster open_catalog None = Inl (KeyError ''min_score'')"
proof
  show "list_all has_student_id (rows batch_roster)"
    by (simp add: batch_roster_def has_student_id_def)
  show "allocate batch_roster open_catalog None = Inl (KeyError ''min_score'')"
    unfolding batch_roster_def open_catalog_def by code_simp
qed

text \<open>
  When the course names of the catalog are pairwise distinct and not empty, and every course
  has its minimum score, the code computes the single-pass selection: no candidate gives the
  unallocated result; otherwise the selected course is a candidate, every candidate before it
  in catalog order has a strictly smaller minimum, and no candidate after it has a larger one.
\<close>

lemma next_min_score_found:
  "distinct (map course_name cs) \<Longrightarrow> c \<in> set cs \<Longrightarrow> min_score c = Some m \<Longrightarrow>
     next_min_score cs (course_name c) = Inr m"
  by (induction cs) auto

lemma select_best_append:
  "select_best s (xs @ ys) b = select_best s ys (select_best s xs b)"
  by (induction s xs b rule: select_best.induct) auto

lemma select_best_mem:
  "select_best s es b = Some p \<Longrightarrow> p \<in> set es \<or> b = Some p"
  by (induction s es b rule: select_best.induct) (auto split: if_splits)

lemma course_loop_refines:
  assumes "unique_course_names cat" and "catalog_complete cat"
    and "set cs \<subseteq> set (all_courses cat)"
    and "\<forall>bu bc. best = Some (bu, bc) \<longrightarrow> bc \<in> set (all_courses cat)"
  shows "course_loop cat s un cs (render_best s best)
           = Inr (render_best s (select_best s (map (\<lambda>c. (un, c)) cs) best))"
  using assms(3,4)
proof (induction cs arbitrary: best)
  case Nil
  show ?case by (cases "render_best s best") simp
next
  case (Cons c cs)
  from Cons.prems(1) have cin: "c \<in> set (all_courses cat)" and sub: "set cs \<subseteq> set (all_courses cat)"
    by simp_all
  have sel: "course_loop cat s un cs (render_best s (Some (un, c)))
           = Inr (render_best s (select_best s (map (\<lambda>c. (un, c)) cs) (Some (un, c))))"
    by (rule Cons.IH[OF sub]) (simp add: cin)
  have keep: "course_loop cat s un cs (render_best s best)
           = Inr (render_best s (select_best s (map (\<lambda>c. (un, c)) cs) best))"
    by (rule Cons.IH[OF sub Cons.prems(2)])
  show ?case
  proof (cases best)
    case None
    with sel keep show ?thesis by simp
  next
    case (Some p)
    obtain bu bc where p: "p = (bu, bc)" by (cases p)
    with Some Cons.prems(2) have bcin: "bc \<in> set (all_courses cat)" by simp
    with assms(1) have ne: "course_name bc \<noteq> []"
      unfolding unique_course_names_def by force
    from bcin assms(2) obtain m where m: "min_score bc = Some m"
      unfolding catalog_complete_def list_all_iff by auto
    with assms(1) bcin have nxt: "next_min_score (all_courses cat) (course_name bc) = Inr m"
      unfolding unique_course_names_def by (simp add: next_min_score_found)
    from m have gm: "get_min_score bc = m" by (simp add: get_min_score_def)
    from sel keep show ?thesis
      by (simp add: Some p ne nxt gm)
  qed
qed

lemma uni_loop_refines:
  assumes "unique_course_names cat" and "catalog_complete cat"
    and "set us \<subseteq> set cat"
    and "\<forall>bu bc. best = Some (bu, bc) \<longrightarrow> bc \<in> set (all_courses cat)"
  shows "uni_loop cat s us (render_best s best)
           = Inr (render_best s (select_best s (catalog_entries us) best))"
  using assms(3,4)
proof (induction us arbitrary: best)
  case Nil
  show ?case by (simp add: catalog_entries_def)
next
  case (Cons u us)
  from Cons.prems(1) have uin: "u \<in> set cat" and sub: "set us \<subseteq> set cat" by simp_all
  then have csub: "set (courses u) \<subseteq> set (all_courses cat)"
    by (auto simp: all_courses_def)
  let ?b1 = "select_best s (map (\<lambda>c. (uni_name u, c)) (courses u)) best"
  have step: "course_loop cat s (uni_name u) (courses u) (render_best s best)
           = Inr (render_best s ?b1)"
    by (rule course_loop_refines[OF assms(1,2) csub Cons.prems(2)])
  have inv: "\<forall>bu bc. ?b1 = Some (bu, bc) \<longrightarrow> bc \<in> set (all_courses cat)"
  proof (intro allI impI)
    fix bu bc assume "?b1 = Some (bu, bc)"
    from select_best_mem[OF this] Cons.prems(2) csub
    show "bc \<in> set (all_courses cat)" by auto
  qed
  from Cons.IH[OF sub inv] step show ?case
    by (simp add: catalog_entries_def select_best_append)
qed

lemma best_fit_allocation_refines:
  assumes "unique_course_names cat" and "catalog_complete cat"
  shows "best_fit_allocation row cat s
           = Inr (render_best s (select_best s (catalog_entries cat) None))"
  using uni_loop_refines[OF assms subset_refl, of None s]
  by (simp add: best_fit_allocation_def)

lemma select_best_some: "select_best s es (Some q) \<noteq> None"
  by (induction s es "Some q" arbitrary: q rule: select_best.induct) auto

lemma select_best_none:
  "select_best s es None = None \<longleftrightarrow> (\<forall>p \<in> set es. s < get_min_score (snd p))"
proof -
  note some = select_best_some
  show ?thesis
  proof (induction es)
    case Nil
    show ?case by simp
  next
    case (Cons e es)
    obtain eu ec where e: "e = (eu, ec)" by (cases e)
    show ?case
    proof (cases "get_min_score ec \<le> s")
      case True
      then have eq: "select_best s (e # es) None = select_best s es (Some (eu, ec))"
        by (simp add: e)
      have "select_best s (e # es) None \<noteq> None" unfolding eq by (rule some)
      moreover from True have "\<not> (\<forall>p \<in> set (e # es). s < get_min_score (snd p))"
        by (simp add: e)
      ultimately show ?thesis by blast
    next
      case False
      then have "select_best s (e # es) None = select_best s es None" by (simp add: e)
      with False Cons.IH show ?thesis by (simp add: e not_le)
    qed
  qed
qed

lemma select_best_first_gen:
  assumes "select_best s es b = Some q"
  shows "(b = Some q \<and> (\<forall>p \<in> set es. get_min_score (snd p) \<le> s \<longrightarrow>
                             get_min_score (snd p) \<le> get_min_score (snd q))) \<or>
         (\<exists>pre post. es = pre @ q # post \<and> get_min_score (snd q) \<le> s \<and>
            (\<forall>p \<in> set pre. get_min_score (snd p) \<le> s \<longrightarrow>
                             get_min_score (snd p) < get_min_score (snd q)) \<and>
            (\<forall>bq. b = Some bq \<longrightarrow> get_min_score (snd bq) < get_min_score (snd q)) \<and>
            (\<forall>p \<in> set post. get_min_score (snd p) \<le> s \<longrightarrow>
                             get_min_score (snd p) \<le> get_min_score (snd q)))"
  using assms
proof (induction es arbitrary: b)
  case Nil
  then show ?case by simp
next
  case (Cons e es)
  obtain eu ec where e: "e = (eu, ec)" by (cases e)
  let ?take = "get_min_score ec \<le> s \<and>
         (case b of None \<Rightarrow> True | Some (bu, bc) \<Rightarrow> get_min_score bc < get_min_score ec)"
  show ?case
  proof (cases ?take)
    case True
    with Cons.prems e have run: "select_best s es (Some e) = Some q" by auto
    from True have cand: "get_min_score ec \<le> s" by simp
    from True have above: "\<forall>bq. b = Some bq \<longrightarrow> get_min_score (snd bq) < get_min_score ec"
      by (auto split: option.splits)
    from Cons.IH[OF run] show ?thesis
    proof
      assume a: "Some e = Some q \<and> (\<forall>p \<in> set es. get_min_score (snd p) \<le> s \<longrightarrow>
                             get_min_score (snd p) \<le> get_min_score (snd q))"
      then have "e # es = [] @ q # es" by simp
      with a cand above e show ?thesis by (intro disjI2 exI[of _ "[]"] exI[of _ es]) auto
    next
      assume "\<exists>pre post. es = pre @ q # post \<and> get_min_score (snd q) \<le> s \<and>
            (\<forall>p \<in> set pre. get_min_score (snd p) \<le> s \<longrightarrow>
                             get_min_score (snd p) < get_min_score (snd q)) \<and>
            (\<forall>bq. Some e = Some bq \<longrightarrow> get_min_score (snd bq) < get_min_score (snd q)) \<and>
            (\<forall>p \<in> set post. get_min_score (snd p) \<le> s \<longrightarrow>
                             get_min_score (snd p) \<le> get_min_score (snd q))"
      then obtain pre post where pp: "es = pre @ q # post" "get_min_score (snd q) \<le> s"
        "\<forall>p \<in> set pre. get_min_score (snd p) \<le> s \<longrightarrow> get_min_score (snd p) < get_min_score (snd q)"
        "get_min_score (snd e) < get_min_score (snd q)"
        "\<forall>p \<in> set post. get_min_score (snd p) \<le> s \<longrightarrow> get_min_score (snd p) \<le> get_min_score (snd q)"
        by auto
      from pp(1) have "e # es = (e # pre) @ q # post" by simp
      moreover from pp(3,4) have "\<forall>p \<in> set (e # pre). get_min_score (snd p) \<le> s \<longrightarrow>
          get_min_score (snd p) < get_min_score (snd q)" by simp
      moreover from above pp(4) e
      have "\<forall>bq. b = Some bq \<longrightarrow> get_min_score (snd bq) < get_min_score (snd q)" by fastforce
      ultimately show ?thesis using pp(2,5) by blast
    qed
  next
    case nt: False
    with Cons.prems e have run: "select_best s es b = Some q" by auto
    from Cons.IH[OF run] show ?thesis
    proof
      assume a: "b = Some q \<and> (\<forall>p \<in> set es. get_min_score (snd p) \<le> s \<longrightarrow>
                             get_min_score (snd p) \<le> get_min_score (snd q))"
      with nt e have "get_min_score (snd e) \<le> s \<longrightarrow> get_min_score (snd e) \<le> get_min_score (snd q)"
        by (cases q) (auto simp: not_less)
      with a show ?thesis by simp
    next
      assume "\<exists>pre post. es = pre @ q # post \<and> get_min_score (snd q) \<le> s \<and>
            (\<forall>p \<in> set pre. get_min_score (snd p) \<le> s \<longrightarrow>
                             get_min_score (snd p) < get_min_score (snd q)) \<and>
            (\<forall>bq. b = Some bq \<longrightarrow> get_min_score (snd bq) < get_min_score (snd q)) \<and>
            (\<forall>p \<in> set post. get_min_score (snd p) \<le> s \<longrightarrow>
                             get_min_score (snd p) \<le> get_min_score (snd q))"
      then obtain pre post where pp: "es = pre @ q # post" "get_min_score (snd q) \<le> s"
        "\<forall>p \<in> set pre. get_min_score (snd p) \<le> s \<longrightarrow> get_min_score (snd p) < get_min_score (snd q)"
        "\<forall>bq. b = Some bq \<longrightarrow> get_min_score (snd bq) < get_min_score (snd q)"
        "\<forall>p \<in> set post. get_min_score (snd p) \<le> s \<longrightarrow> get_min_score (snd p) \<le> get_min_score (snd q)"
        by auto
      have "get_min_score (snd e) \<le> s \<longrightarrow> get_min_score (snd e) < get_min_score (snd q)"
      proof
        assume c: "get_min_score (snd e) \<le> s"
        with nt e obtain bq where b: "b = Some bq" and le: "get_min_score ec \<le> get_min_score (snd bq)"
          by (cases b) (auto simp: not_less)
        with pp(4) e show "get_min_score (snd e) < get_min_score (snd q)" by fastforce
      qed
      with pp(3) have "\<forall>p \<in> set (e # pre). get_min_score (snd p) \<le> s \<longrightarrow>
          get_min_score (snd p) < get_min_score (snd q)" by simp
      moreover from pp(1) have "e # es = (e # pre) @ q # post" by simp
      ultimately show ?thesis using pp(2,4,5) by blast
    qed
  qed
qed

lemma select_best_first:
  assumes "select_best s es None = Some q"
  shows "\<exists>pre post. es = pre @ q # post \<and> get_min_score (snd q) \<le> s \<and>
            (\<forall>p \<in> set pre. get_min_score (snd p) \<le> s \<longrightarrow>
                             get_min_score (snd p) < get_min_score (snd q)) \<and>
            (\<forall>p \<in> set post. get_min_score (snd p) \<le> s \<longrightarrow>
                             get_min_score (snd p) \<le> get_min_score (snd q))"
  using select_best_first_gen[OF assms] by blast

lemma best_fit_allocation_distinct_names:
  assumes "unique_course_names cat" and "catalog_complete cat"
  shows "((\<forall>p \<in> set (catalog_entries cat). s < get_min_score (snd p)) \<longrightarrow>
            best_fit_allocation row cat s = Inr ('''', '''', ''No suitable course found'')) \<and>
         (\<not> (\<forall>p \<in> set (catalog_entries cat). s < get_min_score (snd p)) \<longrightarrow>
            (\<exists>pre u c post.
               catalog_entries cat = pre @ (u, c) # post \<and>
               best_fit_allocation row cat s
                 = Inr (u, course_name c, reasoning_text s (get_min_score c)) \<and>
               get_min_score c \<le> s \<and>
               (\<forall>p \<in> set pre. get_min_score (snd p) \<le> s \<longrightarrow>
                                get_min_score (snd p) < get_min_score c) \<and>
               (\<forall>p \<in> set post. get_min_score (snd p) \<le> s \<longrightarrow>
                                get_min_score (snd p) \<le> get_min_score c)))"
proof (intro conjI impI)
  note run = best_fit_allocation_refines[OF assms, of row s]
  {
    assume "\<forall>p \<in> set (catalog_entries cat). s < get_min_score (snd p)"
    then have "select_best s (catalog_entries cat) None = None" by (simp add: select_best_none)
    with run show "best_fit_allocation row cat s = Inr ('''', '''', ''No suitable course found'')"
      by simp
  }
  {
    assume "\<not> (\<forall>p \<in> set (catalog_entries cat). s < get_min_score (snd p))"
    then have "select_best s (catalog_entries cat) None \<noteq> None" by (simp add: select_best_none)
    then obtain u c where sel: "select_best s (catalog_entries cat) None = Some (u, c)" by auto
    from select_best_first[OF sel] obtain pre post where
      "catalog_entries cat = pre @ (u, c) # post" "get_min_score c \<le> s"
      "\<forall>p \<in> set pre. get_min_score (snd p) \<le> s \<longrightarrow> get_min_score (snd p) < get_min_score c"
      "\<forall>p \<in> set post. get_min_score (snd p) \<le> s \<longrightarrow> get_min_score (snd p) \<le> get_min_score c"
      by auto
    moreover from run sel have "best_fit_allocation row cat s
                 = Inr (u, course_name c, reasoning_text s (get_min_score c))" by simp
    ultimately show "\<exists>pre u c post.
               catalog_entries cat = pre @ (u, c) # post \<and>
               best_fit_allocation row cat s
                 = Inr (u, course_name c, reasoning_text s (get_min_score c)) \<and>
               get_min_score c \<le> s \<and>
               (\<forall>p \<in> set pre. get_min_score (snd p) \<le> s \<longrightarrow>
                                get_min_score (snd p) < get_min_score c) \<and>
               (\<forall>p \<in> set post. get_min_score (snd p) \<le> s \<longrightarrow>
                                get_min_score (snd p) \<le> get_min_score c)"
      by blast
  }
qed

end
